theory Spec2Isabelle
  imports Main "HOL-Library.Sublist" "HOL-Library.AList"
begin

section \<open>moonlite/utils/dashboard.py\<close>

text \<open>
  A shallow embedding of \<^verbatim>\<open>get_cookies\<close>, \<^verbatim>\<open>get_apps\<close> and
  \<^verbatim>\<open>get_packages\<close>. Python strings are HOL strings, Python integers are
  \<^typ>\<open>int\<close>, a Python \<^verbatim>\<open>dict\<close> is an association list in insertion order
  (assignment to a key that is present keeps the key's place, as the interpreter does),
  and every exception the code can raise is a value of \<open>error\<close>, returned on the
  left of a sum. The \<^verbatim>\<open>print\<close> calls are left out.
\<close>

datatype error =
    CookiesNotFound
  | BrowserCookieError
  | RequestException
  | AttributeError
  | TypeError
  | KeyError
  | IndexError
  | ValueError

subsection \<open>Dashboards\<close>

text \<open>
  A member of the \<^verbatim>\<open>Dashboards\<close> enumeration carries the three attributes that
  \<^verbatim>\<open>__init__\<close> sets. \<open>portal_domain\<close> is \<^verbatim>\<open>urlparse(portal_url).netloc\<close>,
  written out for the two members.
\<close>

record Dashboards =
  portal_url :: string
  portal_domain :: string
  cookies_required_prefixes :: "string set"

definition STEAMGAMES :: Dashboards where
  "STEAMGAMES =
     \<lparr>portal_url = ''https://partner.steamgames.com/dashboard'',
      portal_domain = ''partner.steamgames.com'',
      cookies_required_prefixes = {''sessionid'', ''steamLoginSecure'', ''steamMachineAuth''}\<rparr>"

definition STEAMPOWERED :: Dashboards where
  "STEAMPOWERED =
     \<lparr>portal_url = ''https://partner.steampowered.com/nav_games.php'',
      portal_domain = ''partner.steampowered.com'',
      cookies_required_prefixes = {''steamLoginSecure'', ''steamMachineAuth''}\<rparr>"

subsection \<open>get_cookies\<close>

text \<open>
  A cookie of the jar, with the three attributes the code reads
  (\<^verbatim>\<open>cookie.domain\<close>, \<^verbatim>\<open>cookie.name\<close>, \<^verbatim>\<open>cookie.value\<close>).
\<close>

record cookie =
  cookie_domain :: string
  cookie_name :: string
  cookie_value :: string

type_synonym cookie_dict = "(string \<times> string) list"

text \<open>
  The operand of a membership test on the dictionary. The dictionary's keys are the
  strings stored by \<^verbatim>\<open>cookies[cookie.name] = ...\<close>. The test in the loop is
  \<^verbatim>\<open>cookie not in cookies\<close>: its operand is the cookie object, not the cookie's
  name. \<^verbatim>\<open>http.cookiejar.Cookie\<close> defines neither \<^verbatim>\<open>__eq__\<close> nor
  \<^verbatim>\<open>__hash__\<close>, so the object is compared by identity and is equal to no string.
\<close>

datatype dict_operand = StrKey string | CookieObj cookie

fun dict_contains :: "cookie_dict \<Rightarrow> dict_operand \<Rightarrow> bool" where
  "dict_contains d (StrKey k) = (k \<in> fst ` set d)"
| "dict_contains d (CookieObj c) = False"

text \<open>\<^verbatim>\<open>s.startswith(p)\<close>\<close>

definition startswith :: "string \<Rightarrow> string \<Rightarrow> bool" where
  "startswith s p = prefix p s"

text \<open>The body of \<^verbatim>\<open>for cookie in cj\<close> (lines 69 to 73), for one cookie.\<close>

definition keep_cookie :: "Dashboards \<Rightarrow> cookie_dict \<Rightarrow> cookie \<Rightarrow> cookie_dict" where
  "keep_cookie dashboard cookies c =
     (if cookie_domain c = portal_domain dashboard \<and>
         (startswith (cookie_name c) ''steam'' \<or> cookie_name c = ''sessionid'') \<and>
         \<not> dict_contains cookies (CookieObj c)
      then AList.update (cookie_name c) (cookie_value c) cookies
      else cookies)"

definition filter_cookies :: "Dashboards \<Rightarrow> cookie list \<Rightarrow> cookie_dict" where
  "filter_cookies dashboard cj = foldl (keep_cookie dashboard) [] cj"

text \<open>
  Line 76: \<^verbatim>\<open>all(any(cookie.startswith(check) for cookie in cookies) for check in
  dashboard.cookies_required_prefixes)\<close>; iterating a dictionary yields its keys.
\<close>

definition has_required_cookies :: "Dashboards \<Rightarrow> cookie_dict \<Rightarrow> bool" where
  "has_required_cookies dashboard cookies =
     (\<forall>check \<in> cookies_required_prefixes dashboard.
        \<exists>cookie \<in> set (map fst cookies). startswith cookie check)"

text \<open>
  The browser's cookie store is read once per attempt and may change between reads
  (or fail to be read): \<open>browser k\<close> is what the \<open>k\<close>-th read of this run returns.
  The loop \<^verbatim>\<open>while tries:\<close> is a recursion on the counter; it carries the number
  of reads made so far and returns the counter, the dictionary of the last attempt and
  the number of reads.
\<close>

type_synonym browser = "nat \<Rightarrow> error + cookie list"

fun cookie_loop ::
  "nat \<Rightarrow> cookie_dict \<Rightarrow> browser \<Rightarrow> nat \<Rightarrow> Dashboards \<Rightarrow> error + (nat \<times> cookie_dict \<times> nat)" where
  "cookie_loop 0 cookies browser reads dashboard = Inr (0, cookies, reads)"
| "cookie_loop (Suc t) cookies browser reads dashboard =
     (case browser reads of
        Inl e \<Rightarrow> Inl e
      | Inr cj \<Rightarrow>
          let cookies' = filter_cookies dashboard cj in
          if has_required_cookies dashboard cookies'
          then Inr (Suc t, cookies', Suc reads)
          else cookie_loop t cookies' browser (Suc reads) dashboard)"

text \<open>
  \<^verbatim>\<open>get_cookies\<close>: \<^verbatim>\<open>tries = 3\<close>, the loop, then
  \<^verbatim>\<open>if not tries: raise CookiesNotFound\<close>. The result is paired with the number
  of times the jar was read.
\<close>

definition get_cookies_from :: "nat \<Rightarrow> browser \<Rightarrow> Dashboards \<Rightarrow> (error + cookie_dict) \<times> nat option" where
  "get_cookies_from tries browser dashboard =
     (case cookie_loop tries [] browser 0 dashboard of
        Inl e \<Rightarrow> (Inl e, None)
      | Inr (tries', cookies, reads) \<Rightarrow>
          if tries' = 0 then (Inl CookiesNotFound, Some reads) else (Inr cookies, Some reads))"

definition get_cookies :: "browser \<Rightarrow> Dashboards \<Rightarrow> (error + cookie_dict) \<times> nat option" where
  "get_cookies browser dashboard = get_cookies_from 3 browser dashboard"


text \<open>The name predicate and the domain test of lines 70 and 71.\<close>

definition retained :: "Dashboards \<Rightarrow> cookie \<Rightarrow> bool" where
  "retained dashboard c \<longleftrightarrow>
     cookie_domain c = portal_domain dashboard \<and>
     (startswith (cookie_name c) ''steam'' \<or> cookie_name c = ''sessionid'')"

subsection \<open>Strings\<close>

text \<open>
  A character stands for a code point below 256; the predicates below are those of
  \<^verbatim>\<open>str\<close> on that range. \<^verbatim>\<open>str.isspace\<close> holds of the code points 9 to 13,
  28 to 32, 133 and 160.
\<close>

definition isspace :: "char \<Rightarrow> bool" where
  "isspace c \<longleftrightarrow> (of_char c :: nat) \<in> {9, 10, 11, 12, 13, 28, 29, 30, 31, 32, 133, 160}"

text \<open>\<^verbatim>\<open>s.strip()\<close>\<close>

definition strip :: "string \<Rightarrow> string" where
  "strip s = rev (dropWhile isspace (rev (dropWhile isspace s)))"

text \<open>
  \<^verbatim>\<open>str.isnumeric\<close>: the string is not empty and each character has a numeric
  value. Below 256 these are the decimal digits and the superscripts and fractions
  178, 179, 185, 188, 189, 190.
\<close>

definition isdecimal_char :: "char \<Rightarrow> bool" where
  "isdecimal_char c \<longleftrightarrow> 48 \<le> (of_char c :: nat) \<and> (of_char c :: nat) \<le> 57"

definition isnumeric_char :: "char \<Rightarrow> bool" where
  "isnumeric_char c \<longleftrightarrow> isdecimal_char c \<or> (of_char c :: nat) \<in> {178, 179, 185, 188, 189, 190}"

definition isnumeric :: "string \<Rightarrow> bool" where
  "isnumeric s \<longleftrightarrow> s \<noteq> [] \<and> list_all isnumeric_char s"

text \<open>
  \<^verbatim>\<open>int(part)\<close>, as the code calls it: on a string for which \<^verbatim>\<open>isnumeric\<close>
  holds. Such a string has no sign, blank or underscore, and \<^verbatim>\<open>int\<close> reads it
  when every character is a decimal digit; a superscript or a fraction raises
  \<^verbatim>\<open>ValueError\<close>.
\<close>

definition decimal_value :: "string \<Rightarrow> nat" where
  "decimal_value s = foldl (\<lambda>n c. 10 * n + (of_char c - 48)) 0 s"

definition int_of_numeric :: "string \<Rightarrow> error + int" where
  "int_of_numeric part =
     (if part \<noteq> [] \<and> list_all isdecimal_char part then Inr (int (decimal_value part))
      else Inl ValueError)"

text \<open>\<^verbatim>\<open>s.split(sep)\<close> for a separator of one character.\<close>

fun split_on :: "char \<Rightarrow> string \<Rightarrow> string list" where
  "split_on sep [] = [[]]"
| "split_on sep (c # cs) =
     (if c = sep then [] # split_on sep cs
      else (case split_on sep cs of
              [] \<Rightarrow> [[c]]
            | w # ws \<Rightarrow> (c # w) # ws))"

text \<open>
  \<^verbatim>\<open>PurePosixPath(s).parts\<close>: the root, when the string starts with a slash (two
  leading slashes, and only exactly two, are kept as the root \<^verbatim>\<open>//\<close>), then the
  segments between slashes that are neither empty nor a single dot.
\<close>

definition posix_root :: "string \<Rightarrow> string list" where
  "posix_root s =
     (if prefix ''//'' s \<and> \<not> prefix ''///'' s then [''//'']
      else if prefix ''/'' s then [''/'']
      else [])"

definition posix_parts :: "string \<Rightarrow> string list" where
  "posix_parts s = posix_root s @ filter (\<lambda>x. x \<noteq> [] \<and> x \<noteq> ''.'') (split_on CHR ''/'' s)"

text \<open>\<^verbatim>\<open>str(n)\<close> of an integer, as the f-string of line 148 formats it.\<close>

fun digits10 :: "nat \<Rightarrow> string" where
  "digits10 n =
     (if n < 10 then [char_of (48 + n)]
      else digits10 (n div 10) @ [char_of (48 + n mod 10)])"

definition str_int :: "int \<Rightarrow> string" where
  "str_int i = (if i < 0 then CHR ''-'' # digits10 (nat (- i)) else digits10 (nat i))"

subsection \<open>The URL library\<close>

text \<open>
  \<^verbatim>\<open>urllib.parse\<close> is not part of the repository. Its two functions that the code
  calls are parameters of the model: \<^verbatim>\<open>urlparse(href).path\<close>, which raises
  \<^verbatim>\<open>ValueError\<close> on some malformed addresses, and \<^verbatim>\<open>unquote\<close>.
\<close>

record urllib =
  urlparse_path :: "string \<Rightarrow> error + string"
  unquote :: "string \<Rightarrow> string"

text \<open>
  Lines 118 and 150 to 152 hold the same expression,
  \<^verbatim>\<open>[int(part) for part in PurePosixPath(unquote(urlparse(href).path)).parts
  if part.isnumeric()][-1]\<close>. The comprehension converts the numeric parts in
  order, so the first failing conversion raises; then index \<^verbatim>\<open>-1\<close> of an empty list
  raises \<^verbatim>\<open>IndexError\<close>.
\<close>

fun ints_of :: "string list \<Rightarrow> error + int list" where
  "ints_of [] = Inr []"
| "ints_of (part # parts) =
     (case int_of_numeric part of
        Inl e \<Rightarrow> Inl e
      | Inr n \<Rightarrow> (case ints_of parts of Inl e \<Rightarrow> Inl e | Inr ns \<Rightarrow> Inr (n # ns)))"

definition numeric_parts :: "urllib \<Rightarrow> string \<Rightarrow> error + string list" where
  "numeric_parts lib href =
     (case urlparse_path lib href of
        Inl e \<Rightarrow> Inl e
      | Inr path \<Rightarrow> Inr (filter isnumeric (posix_parts (unquote lib path))))"

definition last_numeric_part :: "urllib \<Rightarrow> string \<Rightarrow> error + int" where
  "last_numeric_part lib href =
     (case numeric_parts lib href of
        Inl e \<Rightarrow> Inl e
      | Inr parts \<Rightarrow>
          (case ints_of parts of
             Inl e \<Rightarrow> Inl e
           | Inr ns \<Rightarrow> (case ns of [] \<Rightarrow> Inl IndexError | _ \<Rightarrow> Inr (last ns))))"

subsection \<open>Parsed pages\<close>

text \<open>
  The tree that \<^verbatim>\<open>BeautifulSoup(content, 'html.parser')\<close> builds, as far as the
  code looks at it: text nodes and tags with a name, a dictionary of attributes and the
  list of children. A page is the list of its top-level nodes (the children of the
  \<^verbatim>\<open>BeautifulSoup\<close> object). Comments and other special nodes are not modelled.
\<close>

datatype element =
    NavigableString string
  | Tag string "(string \<times> string) list" "element list"

type_synonym soup = "element list"

fun tag_name :: "element \<Rightarrow> string option" where
  "tag_name (NavigableString s) = None"
| "tag_name (Tag n as cs) = Some n"

fun attrs :: "element \<Rightarrow> (string \<times> string) list" where
  "attrs (NavigableString s) = []"
| "attrs (Tag n as cs) = as"

fun contents :: "element \<Rightarrow> element list" where
  "contents (NavigableString s) = []"
| "contents (Tag n as cs) = cs"

text \<open>The nodes of a forest in document order (\<^verbatim>\<open>.descendants\<close> of its parent).\<close>

fun descendants :: "element list \<Rightarrow> element list" where
  "descendants [] = []"
| "descendants (NavigableString s # ts) = NavigableString s # descendants ts"
| "descendants (Tag n as cs # ts) = Tag n as cs # descendants cs @ descendants ts"

text \<open>
  \<^verbatim>\<open>.string\<close>: the text of a text node; for a tag, the \<^verbatim>\<open>.string\<close> of its only
  child, and \<^verbatim>\<open>None\<close> when it has no child or several.
\<close>

fun string_of :: "element \<Rightarrow> string option" where
  "string_of (NavigableString s) = Some s"
| "string_of (Tag n as [c]) = string_of c"
| "string_of (Tag n as cs) = None"

text \<open>\<^verbatim>\<open>.get_text()\<close>: the text nodes below the element, concatenated.\<close>

fun get_text :: "element \<Rightarrow> string" where
  "get_text (NavigableString s) = s"
| "get_text (Tag n as cs) = concat (map get_text cs)"

text \<open>
  The parser stores the value of a \<^verbatim>\<open>class\<close> attribute as the list of its
  blank-separated tokens. A search for the class value \<open>v\<close> matches a tag when one
  of the tokens is \<open>v\<close>, or when the tokens joined by single spaces are \<open>v\<close>.
\<close>

fun tokens :: "string \<Rightarrow> string \<Rightarrow> string list" where
  "tokens cur [] = (if cur = [] then [] else [cur])"
| "tokens cur (c # cs) =
     (if isspace c then (if cur = [] then tokens [] cs else cur # tokens [] cs)
      else tokens (cur @ [c]) cs)"

fun join_space :: "string list \<Rightarrow> string" where
  "join_space [] = []"
| "join_space [w] = w"
| "join_space (w # v # ws) = w @ '' '' @ join_space (v # ws)"

definition class_matches :: "element \<Rightarrow> string \<Rightarrow> bool" where
  "class_matches e v =
     (case map_of (attrs e) ''class'' of
        None \<Rightarrow> False
      | Some val \<Rightarrow> v \<in> set (tokens [] val) \<or> join_space (tokens [] val) = v)"

text \<open>The four search criteria of the code.\<close>

definition is_tag :: "string \<Rightarrow> element \<Rightarrow> bool" where
  "is_tag n e \<longleftrightarrow> tag_name e = Some n"

definition tag_with_class :: "string \<Rightarrow> string \<Rightarrow> element \<Rightarrow> bool" where
  "tag_with_class n v e \<longleftrightarrow> is_tag n e \<and> class_matches e v"

definition tag_with_text :: "string \<Rightarrow> string \<Rightarrow> element \<Rightarrow> bool" where
  "tag_with_text n t e \<longleftrightarrow> is_tag n e \<and> string_of e = Some t"

definition tag_with_href :: "string \<Rightarrow> element \<Rightarrow> bool" where
  "tag_with_href n e \<longleftrightarrow> is_tag n e \<and> map_of (attrs e) ''href'' \<noteq> None"

text \<open>
  \<^verbatim>\<open>e.find(...)\<close> and \<^verbatim>\<open>e.find_all(...)\<close> search the descendants of \<open>e\<close> in
  document order.
\<close>

definition find_tag :: "(element \<Rightarrow> bool) \<Rightarrow> element \<Rightarrow> element option" where
  "find_tag P e = List.find P (descendants (contents e))"

definition find_all :: "(element \<Rightarrow> bool) \<Rightarrow> element \<Rightarrow> element list" where
  "find_all P e = filter P (descendants (contents e))"

text \<open>
  An element found in a page keeps its place in the page: \<^verbatim>\<open>.next_siblings\<close>,
  the children of its \<^verbatim>\<open>.parent\<close>, and \<open>following\<close>, the subtrees that come after
  the parent's last child in document order (the later siblings of the parent, then
  those of the grandparent, and so on).
\<close>

record located =
  this :: element
  next_siblings :: "element list"
  parent_contents :: "element list"
  following :: "element list"

text \<open>
  \<open>locate pc ts up\<close>: the nodes of the forest \<open>ts\<close> in document order, each with its
  place, where \<open>ts\<close> is a suffix of the children \<open>pc\<close> of one parent and \<open>up\<close> is
  what follows that parent.
\<close>

fun locate :: "element list \<Rightarrow> element list \<Rightarrow> element list \<Rightarrow> located list" where
  "locate pc [] up = []"
| "locate pc (NavigableString s # ts) up =
     \<lparr>this = NavigableString s, next_siblings = ts, parent_contents = pc, following = up\<rparr>
       # locate pc ts up"
| "locate pc (Tag n as cs # ts) up =
     \<lparr>this = Tag n as cs, next_siblings = ts, parent_contents = pc, following = up\<rparr>
       # locate cs cs (ts @ up) @ locate pc ts up"

text \<open>\<^verbatim>\<open>soup.find(...)\<close>, keeping the place of the element found.\<close>

definition soup_find :: "(element \<Rightarrow> bool) \<Rightarrow> soup \<Rightarrow> located option" where
  "soup_find P page = List.find (\<lambda>l. P (this l)) (locate page page [])"

text \<open>\<^verbatim>\<open>e.find_next_siblings(...)\<close>: the later siblings that match, in order.\<close>

fun siblings_from :: "element list \<Rightarrow> element list \<Rightarrow> element list \<Rightarrow> located list" where
  "siblings_from pc [] up = []"
| "siblings_from pc (t # ts) up =
     \<lparr>this = t, next_siblings = ts, parent_contents = pc, following = up\<rparr>
       # siblings_from pc ts up"

definition find_next_siblings :: "(element \<Rightarrow> bool) \<Rightarrow> located \<Rightarrow> located list" where
  "find_next_siblings P l =
     filter (\<lambda>r. P (this r)) (siblings_from (parent_contents l) (next_siblings l) (following l))"

text \<open>
  \<^verbatim>\<open>e.find_next(...)\<close> searches \<^verbatim>\<open>e.next_elements\<close>: everything parsed after
  the start of \<open>e\<close>, that is the descendants of \<open>e\<close>, then its later siblings with
  their descendants, then what follows the parent.
\<close>

definition next_elements :: "located \<Rightarrow> element list" where
  "next_elements l = descendants (contents (this l) @ next_siblings l @ following l)"

definition find_next :: "(element \<Rightarrow> bool) \<Rightarrow> located \<Rightarrow> element option" where
  "find_next P l = List.find P (next_elements l)"

text \<open>
  \<^verbatim>\<open>requests.get(url, cookies=cookies).content\<close>, parsed: the site, as a function of
  the address and the cookies sent. A request may raise.
\<close>

type_synonym fetch = "string \<Rightarrow> cookie_dict \<Rightarrow> error + soup"

subsection \<open>get_apps\<close>

record app =
  appid :: int
  app_name :: string
  app_type :: string

text \<open>
  Lines 100 and 101. \<^verbatim>\<open>soup.find\<close> returns \<^verbatim>\<open>None\<close> when no heading matches,
  and the attribute access on it then raises \<^verbatim>\<open>AttributeError\<close>.
\<close>

definition listing_rows :: "soup \<Rightarrow> error + located list" where
  "listing_rows page =
     (case soup_find (tag_with_text ''h2'' ''View and search all apps:'') page of
        None \<Rightarrow> Inl AttributeError
      | Some header2 \<Rightarrow> Inr (find_next_siblings (tag_with_class ''div'' ''recent_app_row'') header2))"

text \<open>Lines 106 to 109: whether the row is passed over.\<close>

definition store_links :: "located \<Rightarrow> error + element list" where
  "store_links app_row =
     (case find_next (tag_with_class ''div'' ''recent_app_links'') app_row of
        None \<Rightarrow> Inl AttributeError
      | Some links_div \<Rightarrow> Inr (find_all (is_tag ''a'') links_div))"

definition skip_row :: "bool \<Rightarrow> located \<Rightarrow> error + bool" where
  "skip_row store_pages_only app_row =
     (if store_pages_only
      then (case store_links app_row of
              Inl e \<Rightarrow> Inl e
            | Inr links \<Rightarrow> Inr (length links < 2))
      else Inr False)"

text \<open>
  Lines 112 to 123. The values of the dictionary display are computed in the order
  written: the id (a missing \<^verbatim>\<open><a>\<close> makes \<^verbatim>\<open>name_a\<close> \<^verbatim>\<open>None\<close>, whose
  subscript raises \<^verbatim>\<open>TypeError\<close>; a missing \<^verbatim>\<open>href\<close> raises \<^verbatim>\<open>KeyError\<close>),
  the name, then the type.
\<close>

definition app_of_row :: "urllib \<Rightarrow> located \<Rightarrow> error + app" where
  "app_of_row lib app_row =
     (case find_next (tag_with_class ''div'' ''recent_app_name'') app_row of
        None \<Rightarrow> Inl AttributeError
      | Some name_div \<Rightarrow>
          let name_a = find_tag (is_tag ''a'') name_div;
              type_div = find_next (tag_with_class ''div'' ''recent_app_type'') app_row
          in (case name_a of
                None \<Rightarrow> Inl TypeError
              | Some a \<Rightarrow>
                  (case map_of (attrs a) ''href'' of
                     None \<Rightarrow> Inl KeyError
                   | Some href \<Rightarrow>
                       (case last_numeric_part lib href of
                          Inl e \<Rightarrow> Inl e
                        | Inr n \<Rightarrow>
                            (case type_div of
                               None \<Rightarrow> Inl AttributeError
                             | Some t \<Rightarrow>
                                 Inr \<lparr>appid = n,
                                      app_name = strip (get_text a),
                                      app_type = strip (get_text t)\<rparr>)))))"

text \<open>The loop of lines 103 to 124, with the list \<^verbatim>\<open>apps\<close> built so far.\<close>

fun app_rows_loop :: "urllib \<Rightarrow> bool \<Rightarrow> app list \<Rightarrow> located list \<Rightarrow> error + app list" where
  "app_rows_loop lib store_pages_only apps [] = Inr apps"
| "app_rows_loop lib store_pages_only apps (app_row # rest) =
     (case skip_row store_pages_only app_row of
        Inl e \<Rightarrow> Inl e
      | Inr True \<Rightarrow> app_rows_loop lib store_pages_only apps rest
      | Inr False \<Rightarrow>
          (case app_of_row lib app_row of
             Inl e \<Rightarrow> Inl e
           | Inr app \<Rightarrow> app_rows_loop lib store_pages_only (apps @ [app]) rest))"

definition get_apps :: "urllib \<Rightarrow> fetch \<Rightarrow> cookie_dict \<Rightarrow> bool \<Rightarrow> error + app list" where
  "get_apps lib fetch cookies store_pages_only =
     (case fetch ''https://partner.steamgames.com/apps/'' cookies of
        Inl e \<Rightarrow> Inl e
      | Inr page \<Rightarrow>
          (case listing_rows page of
             Inl e \<Rightarrow> Inl e
           | Inr app_rows \<Rightarrow> app_rows_loop lib store_pages_only [] app_rows))"

subsection \<open>get_packages\<close>

text \<open>
  Lines 149 to 159 of \<^verbatim>\<open>app_thread\<close>: the ids of the released rows, in document
  order. A row without a link that has an \<^verbatim>\<open>href\<close> makes \<^verbatim>\<open>find\<close> return
  \<^verbatim>\<open>None\<close>, whose subscript raises \<^verbatim>\<open>TypeError\<close>.
\<close>

fun packageids_of :: "urllib \<Rightarrow> element list \<Rightarrow> error + int list" where
  "packageids_of lib [] = Inr []"
| "packageids_of lib (row # rows) =
     (case find_tag (tag_with_href ''a'') row of
        None \<Rightarrow> Inl TypeError
      | Some a \<Rightarrow>
          (case map_of (attrs a) ''href'' of
             None \<Rightarrow> Inl KeyError
           | Some href \<Rightarrow>
               (case last_numeric_part lib href of
                  Inl e \<Rightarrow> Inl e
                | Inr n \<Rightarrow>
                    (case packageids_of lib rows of
                       Inl e \<Rightarrow> Inl e
                     | Inr ns \<Rightarrow> Inr (n # ns)))))"

definition released_rows :: "soup \<Rightarrow> error + element list" where
  "released_rows page =
     (case soup_find (tag_with_text ''div'' ''Store packages'') page of
        None \<Rightarrow> Inl AttributeError
      | Some heading \<Rightarrow>
          Inr (filter (tag_with_class ''div'' ''tr released'')
                 (descendants (parent_contents heading))))"

definition packageids :: "urllib \<Rightarrow> fetch \<Rightarrow> cookie_dict \<Rightarrow> int \<Rightarrow> error + int list" where
  "packageids lib fetch cookies app =
     (case fetch (''https://partner.steamgames.com/apps/associated/'' @ str_int app) cookies of
        Inl e \<Rightarrow> Inl e
      | Inr page \<Rightarrow>
          (case released_rows page of
             Inl e \<Rightarrow> Inl e
           | Inr rows \<Rightarrow> packageids_of lib rows))"

text \<open>
  Lines 161 to 163, the part of \<^verbatim>\<open>app_thread\<close> under \<^verbatim>\<open>package_lock\<close>.
\<close>

type_synonym package_dict = "(int \<times> int) list"

definition locked_update :: "int list \<Rightarrow> int \<Rightarrow> package_dict \<Rightarrow> package_dict" where
  "locked_update ids app packages = foldl (\<lambda>d packageid. AList.update packageid app d) packages ids"

text \<open>
  One call of \<^verbatim>\<open>app_thread\<close> by a worker of the pool, on the shared dictionary.
  The executor runs the call inside \<^verbatim>\<open>try\<close>: an exception does not leave the worker,
  it is stored in the future of the call (\<^verbatim>\<open>future.set_exception\<close>). The state
  of the pool is the shared dictionary and, for each finished call, its index in
  \<^verbatim>\<open>app_ids\<close> with the exception stored, if any.
\<close>

type_synonym futures = "(nat \<times> error option) list"

definition app_thread ::
  "urllib \<Rightarrow> fetch \<Rightarrow> cookie_dict \<Rightarrow> int list \<Rightarrow> package_dict \<times> futures \<Rightarrow> nat \<Rightarrow> package_dict \<times> futures" where
  "app_thread lib fetch cookies app_ids state i =
     (case packageids lib fetch cookies (app_ids ! i) of
        Inl e \<Rightarrow> (fst state, snd state @ [(i, Some e)])
      | Inr ids \<Rightarrow> (locked_update ids (app_ids ! i) (fst state), snd state @ [(i, None)]))"

text \<open>Line 165: \<^verbatim>\<open>ThreadPoolExecutor(max_workers=20)\<close>.\<close>

definition max_workers :: nat where
  "max_workers = 20"

text \<open>
  \<^verbatim>\<open>pool.map(app_thread, app_ids)\<close> submits one call per id, and leaving the
  \<^verbatim>\<open>with\<close> block waits for all of them. The calls fetch their pages in parallel and
  enter the lock one at a time, so a run is the sequence \<open>schedule\<close> of the indices of
  the calls in the order in which they reach line 161 (or fail before it). Every call
  runs once. A pool of \<open>workers\<close> threads starts the calls in the order of
  \<^verbatim>\<open>app_ids\<close>, a new one only when a thread is free: the call that finishes in
  place \<open>p\<close> (from 0) has an index below \<open>workers + p\<close>.
\<close>

definition valid_schedule :: "nat \<Rightarrow> nat \<Rightarrow> nat list \<Rightarrow> bool" where
  "valid_schedule workers n schedule \<longleftrightarrow>
     sort schedule = [0..<n] \<and>
     list_all (\<lambda>p. schedule ! p < workers + p) [0..<n]"

definition pool_map ::
  "urllib \<Rightarrow> fetch \<Rightarrow> cookie_dict \<Rightarrow> int list \<Rightarrow> nat list \<Rightarrow> package_dict \<times> futures" where
  "pool_map lib fetch cookies app_ids schedule =
     foldl (app_thread lib fetch cookies app_ids) ([], []) schedule"

text \<open>
  \<^verbatim>\<open>get_packages\<close>. The iterator that \<^verbatim>\<open>pool.map\<close> returns is not used, so the
  futures are never asked for their result: line 167 returns the dictionary. The
  schedule of the run is a parameter; the runs of the code are those with
  \<open>valid_schedule max_workers (length app_ids) schedule\<close>.
\<close>

definition get_packages ::
  "urllib \<Rightarrow> fetch \<Rightarrow> cookie_dict \<Rightarrow> bool \<Rightarrow> app list option \<Rightarrow> nat list \<Rightarrow> error + package_dict" where
  "get_packages lib fetch cookies store_pages_only get_app_results schedule =
     (case (case get_app_results of
              None \<Rightarrow> get_apps lib fetch cookies store_pages_only
            | Some apps \<Rightarrow> Inr apps) of
        Inl e \<Rightarrow> Inl e
      | Inr apps \<Rightarrow>
          let app_ids = map appid apps
          in Inr (fst (pool_map lib fetch cookies app_ids schedule)))"

subsection \<open>Sample data\<close>

text \<open>Sample jars for the STEAMGAMES dashboard.\<close>

definition jar_duplicate :: "cookie list" where
  "jar_duplicate =
     [\<lparr>cookie_domain = ''partner.steamgames.com'', cookie_name = ''sessionid'', cookie_value = ''a''\<rparr>,
      \<lparr>cookie_domain = ''partner.steamgames.com'', cookie_name = ''sessionid'', cookie_value = ''b''\<rparr>]"

definition jar_logged_in :: "cookie list" where
  "jar_logged_in =
     [\<lparr>cookie_domain = ''partner.steamgames.com'', cookie_name = ''sessionid'', cookie_value = ''a''\<rparr>,
      \<lparr>cookie_domain = ''store.steampowered.com'', cookie_name = ''steamCountry'', cookie_value = ''x''\<rparr>,
      \<lparr>cookie_domain = ''partner.steamgames.com'', cookie_name = ''timezoneOffset'', cookie_value = ''0''\<rparr>,
      \<lparr>cookie_domain = ''partner.steamgames.com'', cookie_name = ''steamLoginSecure'', cookie_value = ''b''\<rparr>,
      \<lparr>cookie_domain = ''partner.steamgames.com'', cookie_name = ''steamMachineAuth7656'', cookie_value = ''c''\<rparr>]"

definition jar_logged_out :: "cookie list" where
  "jar_logged_out =
     [\<lparr>cookie_domain = ''partner.steamgames.com'', cookie_name = ''sessionid'', cookie_value = ''a''\<rparr>,
      \<lparr>cookie_domain = ''store.steampowered.com'', cookie_name = ''steamLoginSecure'', cookie_value = ''x''\<rparr>]"

text \<open>
  Sample pages. Their links are absolute paths without escapes, query or fragment, on
  which \<^verbatim>\<open>urlparse(href).path\<close> and \<^verbatim>\<open>unquote\<close> return their argument.
\<close>

definition plain_paths :: urllib where
  "plain_paths = \<lparr>urlparse_path = (\<lambda>href. Inr href), unquote = (\<lambda>path. path)\<rparr>"

definition link :: "string \<Rightarrow> string \<Rightarrow> element" where
  "link href label = Tag ''a'' [(''href'', href)] [NavigableString label]"

definition div_class :: "string \<Rightarrow> element list \<Rightarrow> element" where
  "div_class v cs = Tag ''div'' [(''class'', v)] cs"

definition listing_heading :: element where
  "listing_heading = Tag ''h2'' [] [NavigableString ''View and search all apps:'']"

definition name_cell :: "string \<Rightarrow> string \<Rightarrow> element" where
  "name_cell href label = div_class ''recent_app_name'' [link href label]"

definition type_cell :: "string \<Rightarrow> element" where
  "type_cell kind = div_class ''recent_app_type'' [NavigableString kind]"

definition links_cell :: "element list \<Rightarrow> element" where
  "links_cell ls = div_class ''recent_app_links'' ls"

definition row_alpha :: element where
  "row_alpha = div_class ''recent_app_row''
     [name_cell ''/apps/landing/10'' '' Alpha '', type_cell ''Game'',
      links_cell [link ''/apps/landing/10'' ''Admin'', link ''/app/10'' ''Store'']]"

definition row_beta :: element where
  "row_beta = div_class ''recent_app_row''
     [name_cell ''/apps/landing/20'' ''Beta'', type_cell ''Tool'',
      links_cell [link ''/apps/landing/20'' ''Admin'']]"

definition row_gamma :: element where
  "row_gamma = div_class ''recent_app_row''
     [name_cell ''/apps/landing/30'' ''Gamma'', type_cell ''Game'',
      links_cell [link ''/apps/landing/30'' ''Admin'', link ''/app/30'' ''Store'']]"

text \<open>A row whose name link has no number in its path.\<close>

definition row_unnumbered :: element where
  "row_unnumbered = div_class ''recent_app_row''
     [name_cell ''/apps/landing/new'' ''Delta'', type_cell ''Game'',
      links_cell [link ''/apps/landing/new'' ''Admin'', link ''/app/new'' ''Store'']]"

definition listing_page :: soup where
  "listing_page =
     [Tag ''html'' []
        [Tag ''body'' []
           [listing_heading, row_alpha, NavigableString '' '', row_beta, row_gamma]]]"

text \<open>The heading is there, and the rows carry another class name.\<close>

definition renamed_rows_page :: soup where
  "renamed_rows_page =
     [Tag ''html'' []
        [Tag ''body'' []
           [listing_heading,
            div_class ''app_row'' [name_cell ''/apps/landing/10'' ''Alpha'', type_cell ''Game'']]]]"

definition unnumbered_page :: soup where
  "unnumbered_page =
     [Tag ''html'' [] [Tag ''body'' [] [listing_heading, row_alpha, row_unnumbered, row_gamma]]]"

definition login_page :: soup where
  "login_page = [Tag ''html'' [] [Tag ''body'' [] [Tag ''h2'' [] [NavigableString ''Sign in'']]]]"

definition released :: "string \<Rightarrow> element" where
  "released href = div_class ''tr released'' [div_class ''td'' [link href ''Package'']]"

definition packages_page :: "element list \<Rightarrow> soup" where
  "packages_page rows =
     [Tag ''html'' []
        [Tag ''body'' []
           [Tag ''div'' [(''class'', ''section'')]
              ([Tag ''div'' [(''class'', ''title'')] [NavigableString ''Store packages'']] @ rows)]]]"

definition session :: cookie_dict where
  "session = [(''sessionid'', ''a''), (''steamLoginSecure'', ''b'')]"

text \<open>
  Four sites. On the first, app 10 sells packages 100 and 101 and app 20 sells 200. On
  the second, the request for app 20 fails. On the third, the page of app 20 lists
  package 200 and then a released row whose link has no number. On the fourth, the two
  apps both list package 100.
\<close>

definition site :: "(string \<Rightarrow> soup option) \<Rightarrow> fetch" where
  "site pages url cookies = (case pages url of None \<Rightarrow> Inl RequestException | Some page \<Rightarrow> Inr page)"

definition pages_ok :: "string \<Rightarrow> soup option" where
  "pages_ok url =
     (if url = ''https://partner.steamgames.com/apps/'' then Some listing_page
      else if url = ''https://partner.steamgames.com/apps/associated/10''
      then Some (packages_page [released ''/packages/100'', released ''/packages/101''])
      else if url = ''https://partner.steamgames.com/apps/associated/20''
      then Some (packages_page [released ''/packages/200''])
      else None)"

definition pages_one_down :: "string \<Rightarrow> soup option" where
  "pages_one_down url =
     (if url = ''https://partner.steamgames.com/apps/associated/10''
      then Some (packages_page [released ''/packages/100'', released ''/packages/101''])
      else None)"

definition pages_one_unnumbered :: "string \<Rightarrow> soup option" where
  "pages_one_unnumbered url =
     (if url = ''https://partner.steamgames.com/apps/associated/10''
      then Some (packages_page [released ''/packages/100'', released ''/packages/101''])
      else if url = ''https://partner.steamgames.com/apps/associated/20''
      then Some (packages_page [released ''/packages/200'', released ''/packages/new''])
      else None)"

definition pages_shared :: "string \<Rightarrow> soup option" where
  "pages_shared url =
     (if url = ''https://partner.steamgames.com/apps/associated/10''
      then Some (packages_page [released ''/packages/100''])
      else if url = ''https://partner.steamgames.com/apps/associated/20''
      then Some (packages_page [released ''/packages/100''])
      else None)"

definition app_alpha :: app where
  "app_alpha = \<lparr>appid = 10, app_name = ''Alpha'', app_type = ''Game''\<rparr>"

definition app_beta :: app where
  "app_beta = \<lparr>appid = 20, app_name = ''Beta'', app_type = ''Tool''\<rparr>"

definition app_gamma :: app where
  "app_gamma = \<lparr>appid = 30, app_name = ''Gamma'', app_type = ''Game''\<rparr>"

text \<open>
  A row with links and no name or type element of its own, before a complete row.
\<close>

definition row_nameless :: element where
  "row_nameless = div_class ''recent_app_row''
     [links_cell [link ''/apps/landing/40'' ''Admin'', link ''/app/40'' ''Store'']]"

definition nameless_row_page :: soup where
  "nameless_row_page =
     [Tag ''html'' [] [Tag ''body'' [] [listing_heading, row_nameless, row_gamma]]]"

definition at_top :: "element \<Rightarrow> located" where
  "at_top e = \<lparr>this = e, next_siblings = [], parent_contents = [e], following = []\<rparr>"

text \<open>
  A row with a name and a type element and no links element of its own, before a row
  with two links, before a row with one link, and as the last row.
\<close>

definition row_linkless :: element where
  "row_linkless = div_class ''recent_app_row''
     [name_cell ''/apps/landing/40'' ''Delta'', type_cell ''Game'']"

definition app_delta :: app where
  "app_delta = \<lparr>appid = 40, app_name = ''Delta'', app_type = ''Game''\<rparr>"

definition linkless_then :: "element list \<Rightarrow> soup" where
  "linkless_then rows =
     [Tag ''html'' [] [Tag ''body'' [] ([listing_heading, row_linkless] @ rows)]]"

definition followed_by :: "element \<Rightarrow> element \<Rightarrow> located" where
  "followed_by e next =
     \<lparr>this = e, next_siblings = [next], parent_contents = [e, next], following = []\<rparr>"

section \<open>Properties of get_cookies\<close>

lemmas sample_jar_defs =
  jar_duplicate_def jar_logged_in_def jar_logged_out_def STEAMGAMES_def
  filter_cookies_def keep_cookie_def startswith_def has_required_cookies_def


lemma in_set_updateD:
  "p \<in> set (AList.update k v al) \<Longrightarrow> p = (k, v) \<or> p \<in> set al"
  by (induction al) (auto split: if_splits)

lemma keep_cookie_set:
  "p \<in> set (keep_cookie d cs c) \<Longrightarrow>
     p \<in> set cs \<or> (p = (cookie_name c, cookie_value c) \<and> retained d c)"
  by (auto simp: keep_cookie_def retained_def dest: in_set_updateD split: if_splits)

lemma foldl_keep_cookie_set:
  "(n, v) \<in> set (foldl (keep_cookie d) cs cj) \<Longrightarrow>
     (n, v) \<in> set cs \<or> (\<exists>c \<in> set cj. cookie_name c = n \<and> cookie_value c = v \<and> retained d c)"
proof (induction cj arbitrary: cs)
  case Nil
  then show ?case by simp
next
  case (Cons c cj)
  from Cons.IH[OF Cons.prems[simplified]] show ?case
    using keep_cookie_set[of _ d cs c] by auto
qed

lemma keep_cookie_keys:
  "fst ` set (keep_cookie d cs c) =
     fst ` set cs \<union> (if retained d c then {cookie_name c} else {})"
  by (auto simp: keep_cookie_def retained_def dom_update)

lemma foldl_keep_cookie_keys:
  "fst ` set (foldl (keep_cookie d) cs cj) =
     fst ` set cs \<union> cookie_name ` {c \<in> set cj. retained d c}"
proof (induction cj arbitrary: cs)
  case Nil
  then show ?case by simp
next
  case (Cons c cj)
  show ?case unfolding foldl_Cons Cons.IH keep_cookie_keys by auto
qed

lemma cookie_loop_fail:
  "(\<forall>j<t. \<exists>cj. browser (r + j) = Inr cj \<and> \<not> has_required_cookies d (filter_cookies d cj)) \<Longrightarrow>
   \<exists>c'. cookie_loop t c browser r d = Inr (0, c', r + t)"
proof (induction t arbitrary: c r)
  case 0
  then show ?case by simp
next
  case (Suc t)
  from Suc.prems obtain cj where
    cj: "browser r = Inr cj" "\<not> has_required_cookies d (filter_cookies d cj)"
    by force
  have "\<forall>j<t. \<exists>cj. browser (Suc r + j) = Inr cj \<and> \<not> has_required_cookies d (filter_cookies d cj)"
    using Suc.prems by (metis Suc_less_eq add_Suc_right add_Suc)
  from Suc.IH[OF this] show ?case using cj by (simp add: Let_def)
qed

lemma cookie_loop_success:
  "k < t \<Longrightarrow>
   (\<forall>j<k. \<exists>cj. browser (r + j) = Inr cj \<and> \<not> has_required_cookies d (filter_cookies d cj)) \<Longrightarrow>
   browser (r + k) = Inr cj \<Longrightarrow> has_required_cookies d (filter_cookies d cj) \<Longrightarrow>
   cookie_loop t c browser r d = Inr (t - k, filter_cookies d cj, r + Suc k)"
proof (induction t arbitrary: c r k)
  case 0
  then show ?case by simp
next
  case (Suc t)
  show ?case
  proof (cases k)
    case 0
    with Suc.prems show ?thesis by (simp add: Let_def)
  next
    case (Suc k')
    from Suc.prems(2) Suc obtain cj0 where
      cj0: "browser r = Inr cj0" "\<not> has_required_cookies d (filter_cookies d cj0)"
      by force
    have a: "\<forall>j<k'. \<exists>cj. browser (Suc r + j) = Inr cj \<and> \<not> has_required_cookies d (filter_cookies d cj)"
      using Suc.prems(2) Suc by (metis Suc_less_eq add_Suc_right add_Suc)
    have b: "browser (Suc r + k') = Inr cj"
      using Suc.prems(3) Suc by simp
    have "k' < t"
      using Suc.prems(1) Suc by simp
    from Suc.IH[OF this a b Suc.prems(4)] show ?thesis
      using cj0 Suc by (simp add: Let_def)
  qed
qed

text \<open>
  Claim C2. The claim: of two retained cookies with the same name, the first in jar
  order keeps its value in the dictionary. The guard meant for that,
  \<^verbatim>\<open>cookie not in cookies\<close>, tests the cookie object against the string keys and
  is always true, so the assignment runs for every retained cookie and the later
  cookie's value replaces the earlier one: on a jar with \<^verbatim>\<open>sessionid=a\<close> followed
  by \<^verbatim>\<open>sessionid=b\<close> the dictionary holds \<^verbatim>\<open>b\<close>.
\<close>

theorem filter_cookies_duplicate_last_wins:
  "filter_cookies STEAMGAMES jar_duplicate = [(''sessionid'', ''b'')]"
  by (simp add: sample_jar_defs)

text \<open>
  Claim C3. Every pair of the filtered dictionary is the name and value of a cookie of
  the jar whose domain is the dashboard's portal domain and whose name starts with
  \<^verbatim>\<open>steam\<close> or is \<^verbatim>\<open>sessionid\<close>; the names kept are exactly the names of those
  cookies; and an attempt on that jar succeeds (returns the dictionary, rather than
  using up the try) if and only if every required prefix starts the name of at least
  one retained cookie.
\<close>

theorem filter_cookies_retained_only_and_success_iff:
  "(\<forall>(n, v) \<in> set (filter_cookies dashboard cj).
      \<exists>c \<in> set cj. cookie_name c = n \<and> cookie_value c = v \<and>
        cookie_domain c = portal_domain dashboard \<and>
        (startswith n ''steam'' \<or> n = ''sessionid''))
   \<and> fst ` set (filter_cookies dashboard cj) = cookie_name ` {c \<in> set cj. retained dashboard c}
   \<and> (get_cookies_from 1 (\<lambda>k. Inr cj) dashboard = (Inr (filter_cookies dashboard cj), Some 1)
        \<longleftrightarrow> (\<forall>check \<in> cookies_required_prefixes dashboard.
               \<exists>c \<in> set cj. retained dashboard c \<and> startswith (cookie_name c) check))
   \<and> (get_cookies_from 1 (\<lambda>k. Inr cj) dashboard \<noteq> (Inr (filter_cookies dashboard cj), Some 1)
        \<longrightarrow> get_cookies_from 1 (\<lambda>k. Inr cj) dashboard = (Inl CookiesNotFound, Some 1))"
proof -
  have keys: "fst ` set (filter_cookies dashboard cj) = cookie_name ` {c \<in> set cj. retained dashboard c}"
    using foldl_keep_cookie_keys[of dashboard "[]" cj] by (simp add: filter_cookies_def)
  have sound: "\<forall>(n, v) \<in> set (filter_cookies dashboard cj).
      \<exists>c \<in> set cj. cookie_name c = n \<and> cookie_value c = v \<and>
        cookie_domain c = portal_domain dashboard \<and>
        (startswith n ''steam'' \<or> n = ''sessionid'')"
    using foldl_keep_cookie_set[of _ _ dashboard "[]" cj]
    by (fastforce simp: filter_cookies_def retained_def)
  have req: "has_required_cookies dashboard (filter_cookies dashboard cj) \<longleftrightarrow>
      (\<forall>check \<in> cookies_required_prefixes dashboard.
         \<exists>c \<in> set cj. retained dashboard c \<and> startswith (cookie_name c) check)"
    unfolding has_required_cookies_def set_map keys by auto
  have run: "get_cookies_from 1 (\<lambda>k. Inr cj) dashboard =
      (if has_required_cookies dashboard (filter_cookies dashboard cj)
       then (Inr (filter_cookies dashboard cj), Some 1)
       else (Inl CookiesNotFound, Some 1))"
    by (simp add: get_cookies_from_def Let_def)
  show ?thesis
    using keys sound req run by simp
qed

theorem filter_cookies_retained_only_and_success_iff_witness:
  "filter_cookies STEAMGAMES jar_logged_in =
     [(''sessionid'', ''a''), (''steamLoginSecure'', ''b''), (''steamMachineAuth7656'', ''c'')]
   \<and> get_cookies_from 1 (\<lambda>k. Inr jar_logged_in) STEAMGAMES =
       (Inr (filter_cookies STEAMGAMES jar_logged_in), Some 1)
   \<and> get_cookies_from 1 (\<lambda>k. Inr jar_logged_out) STEAMGAMES = (Inl CookiesNotFound, Some 1)"
  using filter_cookies_retained_only_and_success_iff[of STEAMGAMES jar_logged_in]
    filter_cookies_retained_only_and_success_iff[of STEAMGAMES jar_logged_out]
  by (simp add: sample_jar_defs retained_def get_cookies_from_def)

text \<open>
  Claim C4. With \<open>tries\<close> attempts allowed (\<^verbatim>\<open>get_cookies\<close> allows 3): if each of
  the first \<open>tries\<close> reads of the jar fails the required-prefix check, the jar is read
  exactly \<open>tries\<close> times and \<^verbatim>\<open>CookiesNotFound\<close> is raised; if the read number
  \<open>k < tries\<close> is the first to pass the check, the jar is read \<open>k + 1\<close> times and
  the filtered dictionary of that read is returned.
\<close>

theorem get_cookies_exhausts_tries_or_returns_first_success:
  "((\<forall>j<tries. \<exists>cj. browser j = Inr cj \<and> \<not> has_required_cookies dashboard (filter_cookies dashboard cj))
      \<longrightarrow> get_cookies_from tries browser dashboard = (Inl CookiesNotFound, Some tries))
   \<and> (k < tries \<and>
       (\<forall>j<k. \<exists>cj. browser j = Inr cj \<and> \<not> has_required_cookies dashboard (filter_cookies dashboard cj)) \<and>
       browser k = Inr cj \<and> has_required_cookies dashboard (filter_cookies dashboard cj)
      \<longrightarrow> get_cookies_from tries browser dashboard = (Inr (filter_cookies dashboard cj), Some (Suc k)))
   \<and> get_cookies browser dashboard = get_cookies_from 3 browser dashboard"
proof (intro conjI impI)
  assume "\<forall>j<tries. \<exists>cj. browser j = Inr cj \<and> \<not> has_required_cookies dashboard (filter_cookies dashboard cj)"
  then obtain c' where "cookie_loop tries [] browser 0 dashboard = Inr (0, c', tries)"
    using cookie_loop_fail[of tries browser 0 dashboard "[]"] by auto
  then show "get_cookies_from tries browser dashboard = (Inl CookiesNotFound, Some tries)"
    by (simp add: get_cookies_from_def)
next
  assume a: "k < tries \<and>
       (\<forall>j<k. \<exists>cj. browser j = Inr cj \<and> \<not> has_required_cookies dashboard (filter_cookies dashboard cj)) \<and>
       browser k = Inr cj \<and> has_required_cookies dashboard (filter_cookies dashboard cj)"
  then have "cookie_loop tries [] browser 0 dashboard = Inr (tries - k, filter_cookies dashboard cj, Suc k)"
    using cookie_loop_success[of k tries browser 0 dashboard cj "[]"] by simp
  with a show "get_cookies_from tries browser dashboard = (Inr (filter_cookies dashboard cj), Some (Suc k))"
    by (simp add: get_cookies_from_def)
next
  show "get_cookies browser dashboard = get_cookies_from 3 browser dashboard"
    by (simp add: get_cookies_def)
qed

theorem get_cookies_exhausts_tries_or_returns_first_success_witness:
  "get_cookies (\<lambda>k. Inr jar_logged_out) STEAMGAMES = (Inl CookiesNotFound, Some 3)
   \<and> get_cookies (\<lambda>k. if k = 1 then Inr jar_logged_in else Inr jar_logged_out) STEAMGAMES =
       (Inr [(''sessionid'', ''a''), (''steamLoginSecure'', ''b''), (''steamMachineAuth7656'', ''c'')], Some 2)"
proof -
  have out: "\<not> has_required_cookies STEAMGAMES (filter_cookies STEAMGAMES jar_logged_out)"
    by (simp add: sample_jar_defs)
  have "in": "has_required_cookies STEAMGAMES (filter_cookies STEAMGAMES jar_logged_in)"
    by (simp add: sample_jar_defs)
  have val: "filter_cookies STEAMGAMES jar_logged_in =
      [(''sessionid'', ''a''), (''steamLoginSecure'', ''b''), (''steamMachineAuth7656'', ''c'')]"
    by (simp add: sample_jar_defs)
  show ?thesis
    using get_cookies_exhausts_tries_or_returns_first_success
            [of 3 "\<lambda>k. Inr jar_logged_out" STEAMGAMES 0 jar_logged_out]
          get_cookies_exhausts_tries_or_returns_first_success
            [of 3 "\<lambda>k. if k = 1 then Inr jar_logged_in else Inr jar_logged_out" STEAMGAMES 1 jar_logged_in]
          out "in" val
    by simp
qed

section \<open>Properties of get_apps\<close>

subsection \<open>Searching a page\<close>

lemma descendants_append: "descendants (xs @ ys) = descendants xs @ descendants ys"
  by (induction xs rule: descendants.induct) auto

lemma this_locate: "map this (locate pc ts up) = descendants ts"
  by (induction pc ts up rule: locate.induct) auto

lemma this_siblings_from: "map this (siblings_from pc ts up) = ts"
  by (induction ts) auto

lemma soup_find_None_iff:
  "soup_find P page = None \<longleftrightarrow> \<not> (\<exists>e \<in> set (descendants page). P e)"
proof -
  have "set (descendants page) = this ` set (locate page page [])"
    using this_locate[of page page "[]"] by (metis set_map)
  then show ?thesis
    by (auto simp: soup_find_def find_None_iff)
qed

lemma find_append_Some:
  "List.find P xs = Some x \<Longrightarrow> List.find P (xs @ ys) = Some x"
  by (induction xs) (auto split: if_splits)

lemma find_next_inside:
  assumes "find_tag P (this r) = Some d"
  shows "find_next P r = Some d"
  using assms
  by (simp add: find_tag_def find_next_def next_elements_def descendants_append find_append_Some)

lemma find_next_None_iff:
  "find_next P r = None \<longleftrightarrow> \<not> (\<exists>e \<in> set (next_elements r). P e)"
  by (auto simp: find_next_def find_None_iff)

lemma ints_of_map:
  "ints_of parts = Inr ns \<Longrightarrow> map int_of_numeric parts = map Inr ns"
  by (induction parts arbitrary: ns) (auto split: sum.splits)

lemma ints_of_last:
  assumes "ints_of parts = Inr ns" "parts \<noteq> []"
  shows "ns \<noteq> [] \<and> int_of_numeric (last parts) = Inr (last ns)"
proof -
  from ints_of_map[OF assms(1)] have m: "map int_of_numeric parts = map Inr ns" .
  then have "length parts = length ns" by (metis length_map)
  with assms(2) have ne: "ns \<noteq> []" by auto
  from m have "last (map int_of_numeric parts) = last (map Inr ns)" by simp
  with assms(2) ne show ?thesis by (simp add: last_map)
qed

lemma last_numeric_part_Inr:
  assumes "last_numeric_part lib href = Inr n"
  shows "\<exists>path. urlparse_path lib href = Inr path \<and>
     filter isnumeric (posix_parts (unquote lib path)) \<noteq> [] \<and>
     int_of_numeric (last (filter isnumeric (posix_parts (unquote lib path)))) = Inr n"
proof -
  from assms obtain path where p: "urlparse_path lib href = Inr path"
    by (auto simp: last_numeric_part_def numeric_parts_def split: sum.splits)
  let ?parts = "filter isnumeric (posix_parts (unquote lib path))"
  from assms p obtain ns where ns: "ints_of ?parts = Inr ns" "ns \<noteq> []" "n = last ns"
    by (auto simp: last_numeric_part_def numeric_parts_def split: sum.splits list.splits)
  have "?parts \<noteq> []" using ns by auto
  with ints_of_last[OF ns(1)] ns p show ?thesis by auto
qed


lemma app_rows_loop_append:
  "app_rows_loop lib spo apps (xs @ ys) =
     (case app_rows_loop lib spo apps xs of
        Inl e \<Rightarrow> Inl e
      | Inr apps' \<Rightarrow> app_rows_loop lib spo apps' ys)"
  by (induction xs arbitrary: apps) (auto split: sum.splits bool.splits)

lemma app_rows_loop_Inr:
  "app_rows_loop lib spo apps rows = Inr out \<Longrightarrow>
   (\<forall>r \<in> set rows. \<exists>b. skip_row spo r = Inr b) \<and>
   (\<exists>new. out = apps @ new \<and>
      map Inr new = map (app_of_row lib) (filter (\<lambda>r. skip_row spo r = Inr False) rows))"
proof (induction rows arbitrary: apps)
  case Nil
  then show ?case by simp
next
  case (Cons r rows)
  from Cons.prems obtain b where b: "skip_row spo r = Inr b"
    by (auto split: sum.splits)
  show ?case
  proof (cases b)
    case True
    with b Cons.prems have "app_rows_loop lib spo apps rows = Inr out" by simp
    from Cons.IH[OF this] b True show ?thesis by auto
  next
    case False
    with b Cons.prems obtain app where app: "app_of_row lib r = Inr app"
      "app_rows_loop lib spo (apps @ [app]) rows = Inr out"
      by (auto split: sum.splits)
    from Cons.IH[OF app(2)] obtain new where
      "\<forall>r \<in> set rows. \<exists>b. skip_row spo r = Inr b" "out = (apps @ [app]) @ new"
      "map Inr new = map (app_of_row lib) (filter (\<lambda>r. skip_row spo r = Inr False) rows)"
      by auto
    with b False app(1) show ?thesis
      by (intro conjI) (auto intro!: exI[of _ "app # new"])
  qed
qed

lemma dropWhile_split:
  "\<exists>l. s = l @ dropWhile P s \<and> list_all P l"
  by (rule exI[of _ "takeWhile P s"]) (auto simp: list_all_iff dest: set_takeWhileD)

lemma strip_spec:
  "\<exists>l r. s = l @ strip s @ r \<and> list_all isspace l \<and> list_all isspace r \<and>
     (strip s \<noteq> [] \<longrightarrow> \<not> isspace (hd (strip s)) \<and> \<not> isspace (last (strip s)))"
proof -
  let ?m = "dropWhile isspace s"
  obtain l where l: "s = l @ ?m" "list_all isspace l"
    using dropWhile_split[of s isspace] by auto
  obtain r' where r': "rev ?m = r' @ dropWhile isspace (rev ?m)" "list_all isspace r'"
    using dropWhile_split[of "rev ?m" isspace] by auto
  have m: "?m = strip s @ rev r'"
  proof -
    have "?m = rev (rev ?m)" by simp
    also have "\<dots> = rev (r' @ dropWhile isspace (rev ?m))" using r'(1) by simp
    also have "\<dots> = strip s @ rev r'" by (simp add: strip_def)
    finally show ?thesis .
  qed
  have sp: "list_all isspace (rev r')" using r'(2) by (simp add: list_all_iff)
  have ends: "\<not> isspace (hd (strip s)) \<and> \<not> isspace (last (strip s))" if ne: "strip s \<noteq> []"
  proof -
    have d: "dropWhile isspace (rev ?m) \<noteq> []" using ne by (simp add: strip_def)
    then have "\<not> isspace (hd (dropWhile isspace (rev ?m)))" by (rule hd_dropWhile)
    then have la: "\<not> isspace (last (strip s))"
      using d by (simp add: strip_def last_rev)
    have "?m \<noteq> []" using m ne by auto
    then have "\<not> isspace (hd ?m)" by (rule hd_dropWhile)
    moreover have "hd ?m = hd (strip s)" using m ne by (metis hd_append2)
    ultimately show ?thesis using la by simp
  qed
  from l(1) m have "s = l @ strip s @ rev r'" by simp
  with l(2) sp ends show ?thesis by blast
qed

lemma this_find_next_siblings:
  "map this (find_next_siblings P l) = filter P (next_siblings l)"
proof -
  let ?xs = "siblings_from (parent_contents l) (next_siblings l) (following l)"
  have "filter P (map this ?xs) = map this (filter (\<lambda>r. P (this r)) ?xs)"
    by (simp add: filter_map comp_def)
  then show ?thesis
    by (simp add: find_next_siblings_def this_siblings_from)
qed



subsection \<open>The rows kept\<close>

text \<open>
  Claim C7, as the claim states it, fails. The links element of a row is looked up with
  \<^verbatim>\<open>find_next\<close>, which goes on after the end of the row. A row with no links
  element of its own is kept when the next row has two links, left out when the next row
  has one, and raises \<^verbatim>\<open>AttributeError\<close> when it is the last row: whether it is
  kept is not decided by the row.
\<close>

theorem get_apps_row_without_links_follows_next_row:
  "find_tag (tag_with_class ''div'' ''recent_app_links'') row_linkless = None
   \<and> get_apps plain_paths (site (\<lambda>url. Some (linkless_then [row_gamma]))) session True =
       Inr [app_delta, app_gamma]
   \<and> get_apps plain_paths (site (\<lambda>url. Some (linkless_then [row_beta]))) session True = Inr []
   \<and> get_apps plain_paths (site (\<lambda>url. Some (linkless_then []))) session True = Inl AttributeError"
  by code_simp

text \<open>
  Claim C7, amended. On a page where every row holds a links element of its own, when
  \<^verbatim>\<open>get_apps\<close> is called with \<^verbatim>\<open>store_pages_only\<close> set and returns a list: the
  rows are the later siblings of the heading of class \<^verbatim>\<open>recent_app_row\<close>, in
  document order, and the list holds, in the order of the rows, the records of exactly
  the rows whose own links element has at least two hyperlinks, the others being left
  out.
\<close>

theorem get_apps_keeps_rows_with_two_own_links:
  assumes page: "fetch ''https://partner.steamgames.com/apps/'' cookies = Inr page"
    and rows: "listing_rows page = Inr rows"
    and own: "list_all (\<lambda>r. find_tag (tag_with_class ''div'' ''recent_app_links'') (this r) \<noteq> None) rows"
    and ret: "get_apps lib fetch cookies True = Inr apps"
  shows "(\<exists>header2.
       soup_find (tag_with_text ''h2'' ''View and search all apps:'') page = Some header2 \<and>
       map this rows = filter (tag_with_class ''div'' ''recent_app_row'') (next_siblings header2))
     \<and> map Inr apps =
         map (app_of_row lib)
           (filter (\<lambda>r. \<exists>links_div.
                      find_tag (tag_with_class ''div'' ''recent_app_links'') (this r) = Some links_div \<and>
                      \<not> length (find_all (is_tag ''a'') links_div) < 2) rows)"
proof -
  from page rows ret have loop: "app_rows_loop lib True [] rows = Inr apps"
    by (simp add: get_apps_def)
  from rows obtain header2 where
    h: "soup_find (tag_with_text ''h2'' ''View and search all apps:'') page = Some header2"
    and eq: "rows = find_next_siblings (tag_with_class ''div'' ''recent_app_row'') header2"
    by (auto simp: listing_rows_def split: option.splits)
  have order: "map this rows = filter (tag_with_class ''div'' ''recent_app_row'') (next_siblings header2)"
    unfolding eq by (rule this_find_next_siblings)
  from app_rows_loop_Inr[OF loop] have
    recs: "map Inr apps = map (app_of_row lib) (filter (\<lambda>r. skip_row True r = Inr False) rows)"
    by auto
  have "filter (\<lambda>r. skip_row True r = Inr False) rows =
      filter (\<lambda>r. \<exists>links_div.
                 find_tag (tag_with_class ''div'' ''recent_app_links'') (this r) = Some links_div \<and>
                 \<not> length (find_all (is_tag ''a'') links_div) < 2) rows"
  proof (intro filter_cong refl)
    fix r assume "r \<in> set rows"
    with own obtain d where d: "find_tag (tag_with_class ''div'' ''recent_app_links'') (this r) = Some d"
      by (auto simp: list_all_iff)
    then have "store_links r = Inr (find_all (is_tag ''a'') d)"
      by (simp add: store_links_def find_next_inside)
    with d show "(skip_row True r = Inr False) =
        (\<exists>links_div.
           find_tag (tag_with_class ''div'' ''recent_app_links'') (this r) = Some links_div \<and>
           \<not> length (find_all (is_tag ''a'') links_div) < 2)"
      by (simp add: skip_row_def)
  qed
  with recs h order show ?thesis by auto
qed

theorem get_apps_keeps_rows_with_two_own_links_witness:
  "get_apps plain_paths (site pages_ok) session True = Inr [app_alpha, app_gamma]"
proof -
  have page: "site pages_ok ''https://partner.steamgames.com/apps/'' session = Inr listing_page"
    by code_simp
  have "case listing_rows listing_page of
          Inl e \<Rightarrow> False
        | Inr rows \<Rightarrow>
            list_all (\<lambda>r. find_tag (tag_with_class ''div'' ''recent_app_links'') (this r) \<noteq> None) rows"
    by code_simp
  then obtain rows where rows: "listing_rows listing_page = Inr rows"
    and own: "list_all (\<lambda>r. find_tag (tag_with_class ''div'' ''recent_app_links'') (this r) \<noteq> None) rows"
    by (auto split: sum.splits)
  have ret: "get_apps plain_paths (site pages_ok) session True = Inr [app_alpha, app_gamma]"
    by code_simp
  show ?thesis
    using get_apps_keeps_rows_with_two_own_links[OF page rows own ret] ret by simp
qed

subsection \<open>The record of a row\<close>

text \<open>
  Claim C8, as the claim states it, fails. The name and type elements of a row are
  looked up with \<^verbatim>\<open>find_next\<close> as well: for a row with no name element of its
  own, the record is that of whatever row follows it, so the record is not a function
  of the row.
\<close>

theorem app_of_row_follows_next_row:
  "find_tag (tag_with_class ''div'' ''recent_app_name'') row_nameless = None
   \<and> app_of_row plain_paths (followed_by row_nameless row_gamma) = Inr app_gamma
   \<and> app_of_row plain_paths (followed_by row_nameless row_alpha) = Inr app_alpha"
  by code_simp

text \<open>
  Claim C8, amended. For a row that holds a name element and a type element of its own,
  when a record is extracted: its id is the integer written by the last numeric part of
  the decoded path of the \<^verbatim>\<open>href\<close> of the first link in the row's name element; its
  name is the text of that link and its type the text of the row's type element, both
  without the blanks around them; and the record is a function of the row alone, the
  same wherever the row stands in a page.
\<close>

theorem app_of_row_own_fields:
  assumes ret: "app_of_row lib app_row = Inr app"
    and own_name: "find_tag (tag_with_class ''div'' ''recent_app_name'') (this app_row) = Some name_div"
    and own_type: "find_tag (tag_with_class ''div'' ''recent_app_type'') (this app_row) = Some type_div"
  shows "\<exists>a href path.
     find_tag (is_tag ''a'') name_div = Some a \<and>
     map_of (attrs a) ''href'' = Some href \<and>
     urlparse_path lib href = Inr path \<and>
     filter isnumeric (posix_parts (unquote lib path)) \<noteq> [] \<and>
     int_of_numeric (last (filter isnumeric (posix_parts (unquote lib path)))) = Inr (appid app) \<and>
     app_name app = strip (get_text a) \<and>
     app_type app = strip (get_text type_div) \<and>
     (\<exists>l r. get_text a = l @ app_name app @ r \<and> list_all isspace l \<and> list_all isspace r) \<and>
     (app_name app \<noteq> [] \<longrightarrow>
        \<not> isspace (hd (app_name app)) \<and> \<not> isspace (last (app_name app))) \<and>
     (\<exists>l r. get_text type_div = l @ app_type app @ r \<and> list_all isspace l \<and> list_all isspace r) \<and>
     (app_type app \<noteq> [] \<longrightarrow>
        \<not> isspace (hd (app_type app)) \<and> \<not> isspace (last (app_type app))) \<and>
     (\<forall>elsewhere. this elsewhere = this app_row \<longrightarrow> app_of_row lib elsewhere = Inr app)"
proof -
  have nd: "find_next (tag_with_class ''div'' ''recent_app_name'') app_row = Some name_div"
    using own_name by (rule find_next_inside)
  have td: "find_next (tag_with_class ''div'' ''recent_app_type'') app_row = Some type_div"
    using own_type by (rule find_next_inside)
  from ret nd obtain a where a: "find_tag (is_tag ''a'') name_div = Some a"
    by (auto simp: app_of_row_def Let_def split: option.splits)
  with ret nd obtain href where href: "map_of (attrs a) ''href'' = Some href"
    by (auto simp: app_of_row_def Let_def split: option.splits)
  with ret nd a obtain n where n: "last_numeric_part lib href = Inr n"
    by (auto simp: app_of_row_def Let_def split: option.splits sum.splits)
  from ret nd a href n td have app:
    "app = \<lparr>appid = n, app_name = strip (get_text a), app_type = strip (get_text type_div)\<rparr>"
    by (simp add: app_of_row_def Let_def)
  from last_numeric_part_Inr[OF n] obtain path where path:
    "urlparse_path lib href = Inr path"
    "filter isnumeric (posix_parts (unquote lib path)) \<noteq> []"
    "int_of_numeric (last (filter isnumeric (posix_parts (unquote lib path)))) = Inr n"
    by auto
  have trim_name: "\<exists>l r. get_text a = l @ app_name app @ r \<and> list_all isspace l \<and> list_all isspace r"
    using strip_spec[of "get_text a"] app by auto
  have trim_type: "\<exists>l r. get_text type_div = l @ app_type app @ r \<and> list_all isspace l \<and> list_all isspace r"
    using strip_spec[of "get_text type_div"] app by auto
  have ends_name: "app_name app \<noteq> [] \<longrightarrow>
      \<not> isspace (hd (app_name app)) \<and> \<not> isspace (last (app_name app))"
    using strip_spec[of "get_text a"] app by auto
  have ends_type: "app_type app \<noteq> [] \<longrightarrow>
      \<not> isspace (hd (app_type app)) \<and> \<not> isspace (last (app_type app))"
    using strip_spec[of "get_text type_div"] app by auto
  have pure: "app_of_row lib elsewhere = Inr app" if same: "this elsewhere = this app_row"
    for elsewhere
  proof -
    have "find_next (tag_with_class ''div'' ''recent_app_name'') elsewhere = Some name_div"
      using own_name same by (intro find_next_inside) simp
    moreover have "find_next (tag_with_class ''div'' ''recent_app_type'') elsewhere = Some type_div"
      using own_type same by (intro find_next_inside) simp
    ultimately show ?thesis
      using a href n app by (simp add: app_of_row_def Let_def)
  qed
  from a href path app trim_name trim_type ends_name ends_type pure show ?thesis
    by (intro exI[of _ a] exI[of _ href] exI[of _ path]) simp
qed

theorem app_of_row_own_fields_witness:
  "app_of_row plain_paths (at_top row_alpha) = Inr app_alpha
   \<and> app_of_row plain_paths (followed_by row_alpha row_gamma) = Inr app_alpha"
proof -
  have e: "app_of_row plain_paths (at_top row_alpha) = Inr app_alpha"
    by code_simp
  have n: "find_tag (tag_with_class ''div'' ''recent_app_name'') (this (at_top row_alpha)) =
      Some (name_cell ''/apps/landing/10'' '' Alpha '')"
    by code_simp
  have t: "find_tag (tag_with_class ''div'' ''recent_app_type'') (this (at_top row_alpha)) =
      Some (type_cell ''Game'')"
    by code_simp
  have s: "this (followed_by row_alpha row_gamma) = this (at_top row_alpha)"
    by (simp add: at_top_def followed_by_def)
  from app_of_row_own_fields[OF e n t] s
  have "app_of_row plain_paths (followed_by row_alpha row_gamma) = Inr app_alpha"
    by blast
  with e show ?thesis by simp
qed

subsection \<open>Missing elements\<close>

text \<open>
  Claim C9, as the claim states it, fails. A page with the heading whose rows carry
  another class name has no row of the expected structure, and \<^verbatim>\<open>get_apps\<close>
  returns the empty list. A row without a name element of its own, followed by a
  complete row, raises nothing either: the search goes on after the row and the record
  of the next row is returned twice.
\<close>

theorem get_apps_returns_on_unexpected_rows:
  "filter (tag_with_class ''div'' ''recent_app_row'') (descendants renamed_rows_page) = []
   \<and> get_apps plain_paths (site (\<lambda>url. Some renamed_rows_page)) session True = Inr []
   \<and> find_tag (tag_with_class ''div'' ''recent_app_name'') row_nameless = None
   \<and> get_apps plain_paths (site (\<lambda>url. Some nameless_row_page)) session True =
       Inr [app_gamma, app_gamma]"
  by code_simp

text \<open>
  Claim C9, amended. \<^verbatim>\<open>get_apps\<close> fails with \<^verbatim>\<open>AttributeError\<close> when the page
  has no \<^verbatim>\<open>h2\<close> with the heading text. It fails with the error of the first row
  that fails, whatever records were built before it, and a row fails: with
  \<^verbatim>\<open>AttributeError\<close> when no links element (with \<^verbatim>\<open>store_pages_only\<close>), no name
  element or no type element is found after the start of the row; with
  \<^verbatim>\<open>TypeError\<close> when the name element has no link; with \<^verbatim>\<open>KeyError\<close> when the link
  has no \<^verbatim>\<open>href\<close>. When the heading has no later sibling that is a row, the empty
  list is returned.
\<close>

theorem get_apps_fails_on_missing_elements:
  "(fetch ''https://partner.steamgames.com/apps/'' cookies = Inr page \<and>
      \<not> (\<exists>e \<in> set (descendants page). tag_with_text ''h2'' ''View and search all apps:'' e)
      \<longrightarrow> get_apps lib fetch cookies store_pages_only = Inl AttributeError)
   \<and> (fetch ''https://partner.steamgames.com/apps/'' cookies = Inr page \<and>
       listing_rows page = Inr (before @ app_row # rest) \<and>
       app_rows_loop lib store_pages_only [] before = Inr apps \<and>
       (skip_row store_pages_only app_row = Inl e \<or>
        skip_row store_pages_only app_row = Inr False \<and> app_of_row lib app_row = Inl e)
      \<longrightarrow> get_apps lib fetch cookies store_pages_only = Inl e)
   \<and> (store_pages_only \<and>
       \<not> (\<exists>e \<in> set (next_elements app_row). tag_with_class ''div'' ''recent_app_links'' e)
      \<longrightarrow> skip_row store_pages_only app_row = Inl AttributeError)
   \<and> (\<not> (\<exists>e \<in> set (next_elements app_row). tag_with_class ''div'' ''recent_app_name'' e)
      \<longrightarrow> app_of_row lib app_row = Inl AttributeError)
   \<and> (find_next (tag_with_class ''div'' ''recent_app_name'') app_row = Some name_div \<and>
       \<not> (\<exists>e \<in> set (descendants (contents name_div)). is_tag ''a'' e)
      \<longrightarrow> app_of_row lib app_row = Inl TypeError)
   \<and> (find_next (tag_with_class ''div'' ''recent_app_name'') app_row = Some name_div \<and>
       find_tag (is_tag ''a'') name_div = Some a \<and> map_of (attrs a) ''href'' = None
      \<longrightarrow> app_of_row lib app_row = Inl KeyError)
   \<and> (find_next (tag_with_class ''div'' ''recent_app_name'') app_row = Some name_div \<and>
       find_tag (is_tag ''a'') name_div = Some a \<and> map_of (attrs a) ''href'' = Some href \<and>
       last_numeric_part lib href = Inr n \<and>
       \<not> (\<exists>e \<in> set (next_elements app_row). tag_with_class ''div'' ''recent_app_type'' e)
      \<longrightarrow> app_of_row lib app_row = Inl AttributeError)
   \<and> (fetch ''https://partner.steamgames.com/apps/'' cookies = Inr page \<and>
       listing_rows page = Inr []
      \<longrightarrow> get_apps lib fetch cookies store_pages_only = Inr [])"
proof (intro conjI impI)
  assume "fetch ''https://partner.steamgames.com/apps/'' cookies = Inr page \<and>
      \<not> (\<exists>e \<in> set (descendants page). tag_with_text ''h2'' ''View and search all apps:'' e)"
  then show "get_apps lib fetch cookies store_pages_only = Inl AttributeError"
    using soup_find_None_iff[of "tag_with_text ''h2'' ''View and search all apps:''" page]
    by (simp add: get_apps_def listing_rows_def)
next
  assume a: "fetch ''https://partner.steamgames.com/apps/'' cookies = Inr page \<and>
       listing_rows page = Inr (before @ app_row # rest) \<and>
       app_rows_loop lib store_pages_only [] before = Inr apps \<and>
       (skip_row store_pages_only app_row = Inl e \<or>
        skip_row store_pages_only app_row = Inr False \<and> app_of_row lib app_row = Inl e)"
  then have "app_rows_loop lib store_pages_only [] (before @ app_row # rest) = Inl e"
    by (auto simp: app_rows_loop_append)
  with a show "get_apps lib fetch cookies store_pages_only = Inl e"
    by (simp add: get_apps_def)
next
  assume "store_pages_only \<and>
       \<not> (\<exists>e \<in> set (next_elements app_row). tag_with_class ''div'' ''recent_app_links'' e)"
  then show "skip_row store_pages_only app_row = Inl AttributeError"
    using find_next_None_iff[of "tag_with_class ''div'' ''recent_app_links''" app_row]
    by (simp add: skip_row_def store_links_def)
next
  assume "\<not> (\<exists>e \<in> set (next_elements app_row). tag_with_class ''div'' ''recent_app_name'' e)"
  then show "app_of_row lib app_row = Inl AttributeError"
    using find_next_None_iff[of "tag_with_class ''div'' ''recent_app_name''" app_row]
    by (simp add: app_of_row_def)
next
  assume a: "find_next (tag_with_class ''div'' ''recent_app_name'') app_row = Some name_div \<and>
       \<not> (\<exists>e \<in> set (descendants (contents name_div)). is_tag ''a'' e)"
  then have "find_tag (is_tag ''a'') name_div = None"
    by (auto simp: find_tag_def find_None_iff)
  with a show "app_of_row lib app_row = Inl TypeError"
    by (simp add: app_of_row_def Let_def)
next
  assume "find_next (tag_with_class ''div'' ''recent_app_name'') app_row = Some name_div \<and>
       find_tag (is_tag ''a'') name_div = Some a \<and> map_of (attrs a) ''href'' = None"
  then show "app_of_row lib app_row = Inl KeyError"
    by (simp add: app_of_row_def Let_def)
next
  assume a: "find_next (tag_with_class ''div'' ''recent_app_name'') app_row = Some name_div \<and>
       find_tag (is_tag ''a'') name_div = Some a \<and> map_of (attrs a) ''href'' = Some href \<and>
       last_numeric_part lib href = Inr n \<and>
       \<not> (\<exists>e \<in> set (next_elements app_row). tag_with_class ''div'' ''recent_app_type'' e)"
  then have "find_next (tag_with_class ''div'' ''recent_app_type'') app_row = None"
    using find_next_None_iff[of "tag_with_class ''div'' ''recent_app_type''" app_row] by simp
  with a show "app_of_row lib app_row = Inl AttributeError"
    by (simp add: app_of_row_def Let_def)
next
  assume "fetch ''https://partner.steamgames.com/apps/'' cookies = Inr page \<and>
       listing_rows page = Inr []"
  then show "get_apps lib fetch cookies store_pages_only = Inr []"
    by (simp add: get_apps_def)
qed

theorem get_apps_fails_on_missing_elements_witness:
  "get_apps plain_paths (site (\<lambda>url. Some login_page)) session True = Inl AttributeError
   \<and> get_apps plain_paths (site (\<lambda>url. Some unnumbered_page)) session True = Inl IndexError"
proof -
  have h: "site (\<lambda>url. Some login_page) ''https://partner.steamgames.com/apps/'' session = Inr login_page \<and>
      \<not> (\<exists>e \<in> set (descendants login_page). tag_with_text ''h2'' ''View and search all apps:'' e)"
    by code_simp
  have 1: "get_apps plain_paths (site (\<lambda>url. Some login_page)) session True = Inl AttributeError"
    using get_apps_fails_on_missing_elements
      [where fetch = "site (\<lambda>url. Some login_page)" and cookies = session and page = login_page
         and lib = plain_paths and store_pages_only = True] h
    by blast
  have 2: "get_apps plain_paths (site (\<lambda>url. Some unnumbered_page)) session True = Inl IndexError"
    by code_simp
  from 1 2 show ?thesis by simp
qed

subsection \<open>Links without a number\<close>



section \<open>Properties of get_packages\<close>

subsection \<open>The shared dictionary\<close>

lemma map_of_locked_update:
  "map_of (locked_update ids a d) k = (if k \<in> set ids then Some a else map_of d k)"
  unfolding locked_update_def
  by (induction ids arbitrary: d) (auto simp: update_conv')

lemma distinct_locked_update:
  "distinct (map fst d) \<Longrightarrow> distinct (map fst (locked_update ids a d))"
  unfolding locked_update_def
  by (induction ids arbitrary: d) (auto simp: distinct_update)

lemma fst_app_thread:
  "map_of (fst (app_thread lib fetch cookies app_ids st i)) k =
     (case packageids lib fetch cookies (app_ids ! i) of
        Inl e \<Rightarrow> map_of (fst st) k
      | Inr ids \<Rightarrow> if k \<in> set ids then Some (app_ids ! i) else map_of (fst st) k)"
  by (simp add: app_thread_def map_of_locked_update split: sum.splits)

lemma distinct_app_thread:
  "distinct (map fst (fst st)) \<Longrightarrow> distinct (map fst (fst (app_thread lib fetch cookies app_ids st i)))"
  by (simp add: app_thread_def distinct_locked_update split: sum.splits)

lemma distinct_foldl_app_thread:
  "distinct (map fst (fst st)) \<Longrightarrow>
   distinct (map fst (fst (foldl (app_thread lib fetch cookies app_ids) st schedule)))"
  by (induction schedule arbitrary: st) (auto simp: distinct_app_thread)

lemma foldl_app_thread_sound:
  "map_of (fst (foldl (app_thread lib fetch cookies app_ids) st schedule)) k = Some a \<Longrightarrow>
   map_of (fst st) k = Some a \<or>
   (\<exists>i \<in> set schedule. app_ids ! i = a \<and>
      (\<exists>ids. packageids lib fetch cookies a = Inr ids \<and> k \<in> set ids))"
proof (induction schedule arbitrary: st)
  case Nil
  then show ?case by simp
next
  case (Cons i schedule)
  from Cons.IH[OF Cons.prems[simplified]]
  show ?case
    by (auto simp: fst_app_thread split: sum.splits if_splits)
qed

lemma foldl_app_thread_keeps:
  "map_of (fst st) k \<noteq> None \<Longrightarrow>
   map_of (fst (foldl (app_thread lib fetch cookies app_ids) st schedule)) k \<noteq> None"
  by (induction schedule arbitrary: st) (auto simp: fst_app_thread split: sum.splits)

lemma foldl_app_thread_complete:
  "i \<in> set schedule \<Longrightarrow> packageids lib fetch cookies (app_ids ! i) = Inr ids \<Longrightarrow> k \<in> set ids \<Longrightarrow>
   map_of (fst (foldl (app_thread lib fetch cookies app_ids) st schedule)) k \<noteq> None"
proof (induction schedule arbitrary: st)
  case Nil
  then show ?case by simp
next
  case (Cons j schedule)
  show ?case
  proof (cases "i = j")
    case True
    have "map_of (fst (app_thread lib fetch cookies app_ids st j)) k \<noteq> None"
      using Cons.prems True by (simp add: fst_app_thread)
    then show ?thesis by (simp add: foldl_app_thread_keeps)
  next
    case False
    with Cons show ?thesis by simp
  qed
qed

lemma foldl_app_thread_failed_skipped:
  "fst (foldl (app_thread lib fetch cookies app_ids) st schedule) =
   fst (foldl (app_thread lib fetch cookies app_ids) st'
          (filter (\<lambda>i. \<not> isl (packageids lib fetch cookies (app_ids ! i))) schedule))" if "fst st = fst st'"
  using that
proof (induction schedule arbitrary: st st')
  case Nil
  then show ?case by simp
next
  case (Cons i schedule)
  show ?case
  proof (cases "packageids lib fetch cookies (app_ids ! i)")
    case (Inl e)
    then have "fst (app_thread lib fetch cookies app_ids st i) = fst st'"
      using Cons.prems by (simp add: app_thread_def)
    from Cons.IH[OF this] Inl show ?thesis by simp
  next
    case (Inr ids)
    then have "fst (app_thread lib fetch cookies app_ids st i) = fst (app_thread lib fetch cookies app_ids st' i)"
      using Cons.prems by (simp add: app_thread_def)
    from Cons.IH[OF this] Inr show ?thesis by simp
  qed
qed

lemma snd_foldl_app_thread:
  "snd (foldl (app_thread lib fetch cookies app_ids) st schedule) =
   snd st @ map (\<lambda>i. (i, case packageids lib fetch cookies (app_ids ! i) of Inl e \<Rightarrow> Some e | Inr ids \<Rightarrow> None)) schedule"
  by (induction schedule arbitrary: st) (auto simp: app_thread_def split: sum.splits)

lemma valid_schedule_set:
  "valid_schedule m n schedule \<Longrightarrow> set schedule = {0..<n}"
  unfolding valid_schedule_def
  by (metis set_sort set_upt)

lemma pool_map_lookup:
  assumes v: "valid_schedule m (length app_ids) schedule"
    and k: "map_of (fst (pool_map lib fetch cookies app_ids schedule)) k = Some a"
  shows "a \<in> set app_ids \<and> (\<exists>ids. packageids lib fetch cookies a = Inr ids \<and> k \<in> set ids)"
proof -
  from foldl_app_thread_sound[OF k[unfolded pool_map_def]]
  obtain i where i: "i \<in> set schedule" "app_ids ! i = a"
    and ids: "\<exists>ids. packageids lib fetch cookies a = Inr ids \<and> k \<in> set ids"
    by auto
  from i valid_schedule_set[OF v] have "a \<in> set app_ids" by auto
  with ids show ?thesis by simp
qed

lemma pool_map_has_key:
  assumes v: "valid_schedule m (length app_ids) schedule"
    and a: "a \<in> set app_ids" "packageids lib fetch cookies a = Inr ids" "k \<in> set ids"
  shows "map_of (fst (pool_map lib fetch cookies app_ids schedule)) k \<noteq> None"
proof -
  from a(1) obtain i where i: "i < length app_ids" "app_ids ! i = a"
    by (auto simp: in_set_conv_nth)
  then have "i \<in> set schedule" using valid_schedule_set[OF v] by simp
  from foldl_app_thread_complete[OF this, of lib fetch cookies app_ids ids k] a i
  show ?thesis by (simp add: pool_map_def)
qed

lemma distinct_pool_map:
  "distinct (map fst (fst (pool_map lib fetch cookies app_ids schedule)))"
  unfolding pool_map_def by (rule distinct_foldl_app_thread) simp

lemma get_packages_given:
  "get_packages lib fetch cookies spo (Some apps) schedule =
     Inr (fst (pool_map lib fetch cookies (map appid apps) schedule))"
  by (simp add: get_packages_def)

subsection \<open>Errors of the workers\<close>

text \<open>
  Claim C1, as the claim states it, fails: on a site where the request for app 20 fails,
  the worker of app 20 raises, and \<^verbatim>\<open>get_packages\<close> still returns the dictionary
  with the packages of app 10.
\<close>

theorem get_packages_returns_when_a_request_fails:
  "packageids plain_paths (site pages_one_down) session 20 = Inl RequestException
   \<and> get_packages plain_paths (site pages_one_down) session True (Some [app_alpha, app_beta]) [0, 1] =
       Inr [(100, 10), (101, 10)]"
  by code_simp

text \<open>
  Claim C1, amended. When the apps are passed in, \<^verbatim>\<open>get_packages\<close> returns a
  dictionary for every schedule, whatever the workers raise: the dictionary is the one
  the same call builds when the failing workers do not run at all, and the error of each
  failing worker is stored in its future, which the call never reads.
\<close>

theorem get_packages_swallows_worker_errors:
  "(\<exists>packages. get_packages lib fetch cookies store_pages_only (Some apps) schedule = Inr packages)
   \<and> get_packages lib fetch cookies store_pages_only (Some apps) schedule =
       get_packages lib fetch cookies store_pages_only (Some apps)
         (filter (\<lambda>i. \<not> isl (packageids lib fetch cookies (map appid apps ! i))) schedule)
   \<and> (\<forall>i \<in> set schedule. \<forall>e. packageids lib fetch cookies (map appid apps ! i) = Inl e \<longrightarrow>
         (i, Some e) \<in> set (snd (pool_map lib fetch cookies (map appid apps) schedule)))"
proof (intro conjI ballI allI impI)
  show "\<exists>packages. get_packages lib fetch cookies store_pages_only (Some apps) schedule = Inr packages"
    by (simp add: get_packages_given)
next
  show "get_packages lib fetch cookies store_pages_only (Some apps) schedule =
       get_packages lib fetch cookies store_pages_only (Some apps)
         (filter (\<lambda>i. \<not> isl (packageids lib fetch cookies (map appid apps ! i))) schedule)"
    unfolding get_packages_given pool_map_def
    using foldl_app_thread_failed_skipped[of "([], [])" "([], [])" lib fetch cookies "map appid apps" schedule]
    by simp
next
  fix i e
  assume "i \<in> set schedule" "packageids lib fetch cookies (map appid apps ! i) = Inl e"
  then show "(i, Some e) \<in> set (snd (pool_map lib fetch cookies (map appid apps) schedule))"
    unfolding pool_map_def snd_foldl_app_thread by force
qed

theorem get_packages_swallows_worker_errors_witness:
  "get_packages plain_paths (site pages_one_down) session True (Some [app_alpha, app_beta]) [1, 0] =
     Inr [(100, 10), (101, 10)]
   \<and> (1, Some RequestException) \<in>
       set (snd (pool_map plain_paths (site pages_one_down) session (map appid [app_alpha, app_beta]) [1, 0]))"
proof -
  have e: "packageids plain_paths (site pages_one_down) session (map appid [app_alpha, app_beta] ! 1) =
      Inl RequestException"
    by code_simp
  have g: "get_packages plain_paths (site pages_one_down) session True (Some [app_alpha, app_beta]) [1, 0] =
     Inr [(100, 10), (101, 10)]"
    by code_simp
  show ?thesis
    using get_packages_swallows_worker_errors
      [of plain_paths "site pages_one_down" session True "[app_alpha, app_beta]" "[1, 0]"] e g
    by simp
qed

subsection \<open>Independence of the schedule\<close>

text \<open>
  Claim C5, as the claim states it, fails: when the pages of apps 10 and 20 both list
  package 100, package 100 is mapped to the app whose worker takes the lock last, and
  both orders are schedules of a pool of 20 workers.
\<close>

theorem get_packages_shared_package_depends_on_schedule:
  "valid_schedule max_workers 2 [0, 1] \<and> valid_schedule max_workers 2 [1, 0]
   \<and> get_packages plain_paths (site pages_shared) session True (Some [app_alpha, app_beta]) [0, 1] =
       Inr [(100, 20)]
   \<and> get_packages plain_paths (site pages_shared) session True (Some [app_alpha, app_beta]) [1, 0] =
       Inr [(100, 10)]"
  by code_simp

text \<open>
  Claim C5, amended. When no package id is extracted from the pages of two different
  app ids of the list, the dictionaries returned under any two schedules, for any two
  pool sizes, hold the same key-value pairs.
\<close>

theorem get_packages_schedule_independent:
  assumes s1: "valid_schedule c1 (length apps) schedule1"
    and s2: "valid_schedule c2 (length apps) schedule2"
    and disjoint: "\<forall>a \<in> appid ` set apps. \<forall>b \<in> appid ` set apps. a \<noteq> b \<longrightarrow>
       (\<forall>ids ids'. packageids lib fetch cookies a = Inr ids \<and>
          packageids lib fetch cookies b = Inr ids' \<longrightarrow> set ids \<inter> set ids' = {})"
  shows "\<exists>packages1 packages2.
     get_packages lib fetch cookies store_pages_only (Some apps) schedule1 = Inr packages1 \<and>
     get_packages lib fetch cookies store_pages_only (Some apps) schedule2 = Inr packages2 \<and>
     set packages1 = set packages2"
proof -
  let ?ids = "map appid apps"
  let ?d1 = "fst (pool_map lib fetch cookies ?ids schedule1)"
  let ?d2 = "fst (pool_map lib fetch cookies ?ids schedule2)"
  have v1: "valid_schedule c1 (length ?ids) schedule1" using s1 by simp
  have v2: "valid_schedule c2 (length ?ids) schedule2" using s2 by simp
  have sub: "map_of d' k = Some a"
    if dk: "map_of d k = Some a"
      and d: "d = fst (pool_map lib fetch cookies ?ids s)"
      and d': "d' = fst (pool_map lib fetch cookies ?ids s')"
      and vs: "valid_schedule c (length ?ids) s"
      and vs': "valid_schedule c' (length ?ids) s'"
    for d d' k a s s' c c'
  proof -
    from pool_map_lookup[OF vs dk[unfolded d]]
    obtain ids where a: "a \<in> set ?ids" "packageids lib fetch cookies a = Inr ids" "k \<in> set ids"
      by auto
    from pool_map_has_key[OF vs' a] obtain b where b: "map_of d' k = Some b"
      unfolding d' by auto
    from pool_map_lookup[OF vs' b[unfolded d']]
    obtain ids' where b': "b \<in> set ?ids" "packageids lib fetch cookies b = Inr ids'" "k \<in> set ids'"
      by auto
    have "a = b"
    proof (rule ccontr)
      assume "a \<noteq> b"
      moreover have "a \<in> appid ` set apps" "b \<in> appid ` set apps"
        using a(1) b'(1) by simp_all
      ultimately have "set ids \<inter> set ids' = {}"
        using disjoint a(2) b'(2) by blast
      with a(3) b'(3) show False by auto
    qed
    with b show "map_of d' k = Some a" by simp
  qed
  have "map_of ?d1 = map_of ?d2"
  proof
    fix k
    show "map_of ?d1 k = map_of ?d2 k"
    proof (cases "map_of ?d1 k")
      case None
      show ?thesis
      proof (cases "map_of ?d2 k")
        case None
        with \<open>map_of ?d1 k = None\<close> show ?thesis by simp
      next
        case (Some a)
        from sub[OF Some refl refl v2 v1] \<open>map_of ?d1 k = None\<close> show ?thesis by simp
      qed
    next
      case (Some a)
      from sub[OF Some refl refl v1 v2] Some show ?thesis by simp
    qed
  qed
  then have "set ?d1 = set ?d2"
    using map_of_inject_set[OF distinct_pool_map distinct_pool_map] by blast
  then show ?thesis
    unfolding get_packages_given by blast
qed

theorem get_packages_schedule_independent_witness:
  "valid_schedule 1 (length [app_alpha, app_beta]) [0, 1]
   \<and> valid_schedule max_workers (length [app_alpha, app_beta]) [1, 0]
   \<and> get_packages plain_paths (site pages_ok) session True (Some [app_alpha, app_beta]) [0, 1] =
       Inr [(100, 10), (101, 10), (200, 20)]
   \<and> get_packages plain_paths (site pages_ok) session True (Some [app_alpha, app_beta]) [1, 0] =
       Inr [(200, 20), (100, 10), (101, 10)]
   \<and> set [(100, 10), (101, 10), (200, 20)] = set [(200, 20), (100, 10), (101 :: int, 10 :: int)]"
proof -
  have v1: "valid_schedule 1 (length [app_alpha, app_beta]) [0, 1]"
    by code_simp
  have v2: "valid_schedule max_workers (length [app_alpha, app_beta]) [1, 0]"
    by code_simp
  have p10: "packageids plain_paths (site pages_ok) session 10 = Inr [100, 101]"
    by code_simp
  have p20: "packageids plain_paths (site pages_ok) session 20 = Inr [200]"
    by code_simp
  have disjoint: "\<forall>a \<in> appid ` set [app_alpha, app_beta]. \<forall>b \<in> appid ` set [app_alpha, app_beta]. a \<noteq> b \<longrightarrow>
       (\<forall>ids ids'. packageids plain_paths (site pages_ok) session a = Inr ids \<and>
          packageids plain_paths (site pages_ok) session b = Inr ids' \<longrightarrow> set ids \<inter> set ids' = {})"
    by (auto simp: app_alpha_def app_beta_def p10 p20)
  have g1: "get_packages plain_paths (site pages_ok) session True (Some [app_alpha, app_beta]) [0, 1] =
       Inr [(100, 10), (101, 10), (200, 20)]"
    by code_simp
  have g2: "get_packages plain_paths (site pages_ok) session True (Some [app_alpha, app_beta]) [1, 0] =
       Inr [(200, 20), (100, 10), (101, 10)]"
    by code_simp
  show ?thesis
    using get_packages_schedule_independent[OF v1 v2 disjoint, of True] v1 v2 g1 g2
    by auto
qed

subsection \<open>The pairs of the dictionary\<close>

text \<open>
  Claim C6, as the claim states it, fails: the page of app 20 has a released row of
  package 200 and a released row whose link has no number, so the worker of app 20
  raises \<^verbatim>\<open>IndexError\<close> and app 20 adds nothing to the dictionary that is returned,
  although its page does not list zero packages.
\<close>

theorem get_packages_skips_an_app_with_packages:
  "get_packages plain_paths (site pages_one_unnumbered) session True (Some [app_alpha, app_beta]) [0, 1] =
     Inr [(100, 10), (101, 10)]
   \<and> packageids plain_paths (site pages_one_unnumbered) session 20 = Inl IndexError
   \<and> packageids_of plain_paths [released ''/packages/200''] = Inr [200]"
  by code_simp

text \<open>
  Claim C6, amended. In the dictionary returned, every key is mapped to an app id of
  the list from whose page the key was extracted, and every app id of the list whose
  worker does not raise has all the ids extracted from its page among the keys.
\<close>

theorem get_packages_pairs_of_successful_workers:
  assumes "valid_schedule max_workers (length apps) schedule"
  shows "\<exists>packages. get_packages lib fetch cookies store_pages_only (Some apps) schedule = Inr packages \<and>
     (\<forall>(k, a) \<in> set packages. a \<in> appid ` set apps \<and>
        (\<exists>ids. packageids lib fetch cookies a = Inr ids \<and> k \<in> set ids)) \<and>
     (\<forall>a \<in> appid ` set apps. \<forall>ids. packageids lib fetch cookies a = Inr ids \<longrightarrow>
        set ids \<subseteq> fst ` set packages)"
proof -
  let ?ids = "map appid apps"
  let ?d = "fst (pool_map lib fetch cookies ?ids schedule)"
  have v: "valid_schedule max_workers (length ?ids) schedule" using assms by simp
  have d: "distinct (map fst ?d)" by (rule distinct_pool_map)
  have 1: "\<forall>(k, a) \<in> set ?d. a \<in> appid ` set apps \<and>
        (\<exists>ids. packageids lib fetch cookies a = Inr ids \<and> k \<in> set ids)"
  proof (clarify)
    fix k a assume "(k, a) \<in> set ?d"
    with d have "map_of ?d k = Some a" by simp
    from pool_map_lookup[OF v this]
    show "a \<in> appid ` set apps \<and> (\<exists>ids. packageids lib fetch cookies a = Inr ids \<and> k \<in> set ids)"
      by simp
  qed
  have 2: "\<forall>a \<in> appid ` set apps. \<forall>ids. packageids lib fetch cookies a = Inr ids \<longrightarrow>
        set ids \<subseteq> fst ` set ?d"
  proof (intro ballI allI impI subsetI)
    fix a ids k
    assume "a \<in> appid ` set apps" "packageids lib fetch cookies a = Inr ids" "k \<in> set ids"
    then have "map_of ?d k \<noteq> None"
      using pool_map_has_key[OF v, of a lib fetch cookies ids k] by simp
    then show "k \<in> fst ` set ?d"
      by (simp add: map_of_eq_None_iff)
  qed
  show ?thesis
    unfolding get_packages_given using 1 2 by blast
qed

theorem get_packages_pairs_of_successful_workers_witness:
  "valid_schedule max_workers (length [app_alpha, app_beta]) [1, 0]
   \<and> get_packages plain_paths (site pages_ok) session True (Some [app_alpha, app_beta]) [1, 0] =
       Inr [(200, 20), (100, 10), (101, 10)]"
proof -
  have v: "valid_schedule max_workers (length [app_alpha, app_beta]) [1, 0]"
    by code_simp
  have g: "get_packages plain_paths (site pages_ok) session True (Some [app_alpha, app_beta]) [1, 0] =
       Inr [(200, 20), (100, 10), (101, 10)]"
    by code_simp
  show ?thesis
    using get_packages_pairs_of_successful_workers
      [OF v, of plain_paths "site pages_ok" session True] v g
    by simp
qed

end
